theory Spec2Isabelle
  imports Main "HOL-Library.Sublist" "HOL-Library.Word"
begin

section \<open>Errors\<close>

text \<open>
  Go functions return an \<open>error\<close> beside their result, or panic. Both are values here:
  a fallible function returns \<open>error + 'a\<close>, with \<open>Inl\<close> for the failure.
  \<open>ErrInternal\<close> is an error wrapping \<open>jsonrpc2.ErrInternal\<close> (\<open>fmt.Errorf("%w: ...")\<close>),
  \<open>Errorf\<close> any other \<open>fmt.Errorf\<close>, \<open>IOError\<close> an error handed back by a collaborator
  (file system, position mapper), \<open>Panic\<close> a run-time panic.
\<close>

datatype error =
    Errorf string
  | ErrInternal string
  | IOError string
  | Cancelled
  | Panic string

section \<open>Package metadata (source.Metadata)\<close>

type_synonym DocumentURI = string
type_synonym PackageID = string
type_synonym PackagePath = string
type_synonym PackageName = string
type_synonym ImportPath = string

text \<open>
  The fields of \<open>Metadata\<close> whose types belong to this repository. The fields holding
  values of external libraries (TypesSizes, Errors, Module, DepsErrors, Diagnostics) play
  no part in the functions below and are left out.
\<close>

record Metadata =
  ID :: PackageID
  PkgPath :: PackagePath
  Name :: PackageName
  GoFiles :: "DocumentURI list"
  CompiledGoFiles :: "DocumentURI list"
  IgnoredFiles :: "DocumentURI list"
  ForTest :: PackagePath
  DepsByImpPath :: "(ImportPath \<times> PackageID) list"
  DepsByPkgPath :: "(PackagePath \<times> PackageID) list"
  LoadDir :: string
  Standalone :: bool

definition IsIntermediateTestVariant :: "Metadata \<Rightarrow> bool" where
  "IsIntermediateTestVariant m =
     (ForTest m \<noteq> [] \<and> ForTest m \<noteq> PkgPath m \<and> ForTest m @ ''_test'' \<noteq> PkgPath m)"

text \<open>
  \<open>RemoveIntermediateTestVariants\<close> filters in place: \<open>res := metas[:0]\<close> shares the
  backing array of \<open>metas\<close>, and each \<open>append(res, m)\<close> writes into that array at index
  \<open>len(res)\<close>. The loop state is the backing array \<open>arr\<close>, the length \<open>w\<close> of \<open>res\<close> and
  the index \<open>i\<close> of the range loop, which reads element \<open>i\<close> from the live array.
  (\<open>w \<le> i\<close> throughout, so \<open>append\<close> never has to grow the array.)
\<close>

function RemoveITV_loop :: "Metadata list \<Rightarrow> nat \<Rightarrow> nat \<Rightarrow> Metadata list \<times> nat" where
  "RemoveITV_loop arr w i =
     (if i < length arr then
        (let m = arr ! i in
         if \<not> IsIntermediateTestVariant m
         then RemoveITV_loop (arr[w := m]) (Suc w) (Suc i)
         else RemoveITV_loop arr w (Suc i))
      else (arr, w))"
  by pat_completeness auto
termination
  by (relation "measure (\<lambda>(arr, w, i). length arr - i)") auto

declare RemoveITV_loop.simps [simp del]

definition RemoveIntermediateTestVariants :: "Metadata list \<Rightarrow> Metadata list" where
  "RemoveIntermediateTestVariants metas =
     (case RemoveITV_loop metas 0 0 of (arr, w) \<Rightarrow> take w arr)"

section \<open>Selecting the package of a file\<close>

text \<open>
  The \<open>Snapshot\<close> and \<open>Package\<close> interfaces, as records of the methods used here. A
  context is its cancellation state.
\<close>

record Context =
  cancelled :: bool

type_synonym ParsedGoFile = DocumentURI

record Package =
  PkgMetadata :: Metadata
  File :: "DocumentURI \<Rightarrow> error + ParsedGoFile"

record Snapshot =
  MetadataForFile :: "Context \<Rightarrow> DocumentURI \<Rightarrow> error + Metadata list"
  TypeCheck :: "Context \<Rightarrow> PackageID list \<Rightarrow> error + Package list"

definition NarrowestMetadataForFile ::
  "Context \<Rightarrow> Snapshot \<Rightarrow> DocumentURI \<Rightarrow> error + Metadata" where
  "NarrowestMetadataForFile ctx snapshot uri =
     (case MetadataForFile snapshot ctx uri of
        Inl err \<Rightarrow> Inl err
      | Inr metas0 \<Rightarrow>
          (let metas = RemoveIntermediateTestVariants metas0 in
           if length metas = 0
           then Inl (Errorf (''no package metadata for file '' @ uri))
           else Inr (metas ! 0)))"

text \<open>
  \<open>selectPackageForFile\<close> returns its result together with the list of the
  \<open>snapshot.TypeCheck\<close> requests it issued (the ids of each request), so that what is
  type-checked can be stated. \<open>pkgs[0]\<close> panics on an empty answer.
\<close>

definition selectPackageForFile ::
  "Context \<Rightarrow> Snapshot \<Rightarrow> DocumentURI \<Rightarrow> (Metadata list \<Rightarrow> Metadata)
     \<Rightarrow> (error + Package \<times> ParsedGoFile) \<times> PackageID list list" where
  "selectPackageForFile ctx snapshot uri selector =
     (case MetadataForFile snapshot ctx uri of
        Inl err \<Rightarrow> (Inl err, [])
      | Inr metas0 \<Rightarrow>
          (let metas = RemoveIntermediateTestVariants metas0 in
           if length metas = 0
           then (Inl (Errorf (''no package metadata for file '' @ uri)), [])
           else
             (let md = selector metas in
              (case TypeCheck snapshot ctx [ID md] of
                 Inl err \<Rightarrow> Inl err
               | Inr pkgs \<Rightarrow>
                   (case pkgs of
                      [] \<Rightarrow> Inl (Panic ''index out of range'')
                    | pkg # _ \<Rightarrow>
                        (case File pkg uri of
                           Inl err \<Rightarrow> Inl err
                         | Inr pgf \<Rightarrow> Inr (pkg, pgf))),
               [[ID md]]))))"

definition NarrowestPackageForFile ::
  "Context \<Rightarrow> Snapshot \<Rightarrow> DocumentURI \<Rightarrow> (error + Package \<times> ParsedGoFile) \<times> PackageID list list" where
  "NarrowestPackageForFile ctx snapshot uri =
     selectPackageForFile ctx snapshot uri (\<lambda>metas. metas ! 0)"

definition WidestPackageForFile ::
  "Context \<Rightarrow> Snapshot \<Rightarrow> DocumentURI \<Rightarrow> (error + Package \<times> ParsedGoFile) \<times> PackageID list list" where
  "WidestPackageForFile ctx snapshot uri =
     selectPackageForFile ctx snapshot uri (\<lambda>metas. metas ! (length metas - 1))"


subsection \<open>A concrete snapshot\<close>

text \<open>
  A file \<open>p.go\<close> of package \<open>p\<close>, which also belongs to the intermediate test variant
  \<open>p [q.test]\<close> and to the test variant \<open>p [p.test]\<close>.
\<close>

definition mk_meta :: "PackageID \<Rightarrow> PackagePath \<Rightarrow> PackagePath \<Rightarrow> DocumentURI list \<Rightarrow> Metadata" where
  "mk_meta i p t fs = \<lparr>ID = i, PkgPath = p, Name = p, GoFiles = fs, CompiledGoFiles = fs,
     IgnoredFiles = [], ForTest = t, DepsByImpPath = [], DepsByPkgPath = [], LoadDir = [],
     Standalone = False\<rparr>"

definition demo_metas :: "Metadata list" where
  "demo_metas =
     [mk_meta ''p'' ''p'' [] [''file:///p/p.go''],
      mk_meta ''p [q.test]'' ''p'' ''q'' [''file:///p/p.go''],
      mk_meta ''p [p.test]'' ''p'' ''p'' [''file:///p/p.go'', ''file:///p/p_test.go'']]"

definition demo_File :: "Metadata \<Rightarrow> DocumentURI \<Rightarrow> error + ParsedGoFile" where
  "demo_File m uri =
     (if uri \<in> set (CompiledGoFiles m) then Inr uri else Inl (Errorf ''no parsed file''))"

definition demo_MetadataForFile :: "Context \<Rightarrow> DocumentURI \<Rightarrow> error + Metadata list" where
  "demo_MetadataForFile ctx uri =
     (if cancelled ctx then Inl Cancelled
      else Inr (filter (\<lambda>m. uri \<in> set (CompiledGoFiles m)) demo_metas))"

definition demo_TypeCheck :: "Context \<Rightarrow> PackageID list \<Rightarrow> error + Package list" where
  "demo_TypeCheck ctx ids =
     (if cancelled ctx then Inl Cancelled
      else Inr (concat (map (\<lambda>i. map (\<lambda>m. \<lparr>PkgMetadata = m, File = demo_File m\<rparr>)
                                 (filter (\<lambda>m. ID m = i) demo_metas)) ids)))"

definition demo_snapshot :: Snapshot where
  "demo_snapshot = \<lparr>MetadataForFile = demo_MetadataForFile, TypeCheck = demo_TypeCheck\<rparr>"

definition demo_ctx :: Context where
  "demo_ctx = \<lparr>cancelled = False\<rparr>"

section \<open>Files, overlays and modifications\<close>

type_synonym Hash = string

text \<open>\<open>file.Hash\<close> is a 32-byte array; its zero value is 32 zero bytes.\<close>

definition zeroHash :: Hash where
  "zeroHash = replicate 32 (CHR 0x00)"

record Identity =
  idURI :: DocumentURI
  Hash :: Hash

text \<open>
  A \<open>file.Handle\<close> is an interface; a handle is modelled by what its five methods
  return. \<open>Content\<close> returns the bytes or an error.
\<close>

record Handle =
  fhURI :: DocumentURI
  fhIdentity :: Identity
  SameContentsOnDisk :: bool
  fhVersion :: int
  Content :: "error + string"

text \<open>A \<open>file.Source\<close> is its \<open>ReadFile\<close> method.\<close>

type_synonym Source = "Context \<Rightarrow> DocumentURI \<Rightarrow> error + Handle"

definition brokenFile :: "DocumentURI \<Rightarrow> error \<Rightarrow> Handle" where
  "brokenFile u err =
     \<lparr>fhURI = u, fhIdentity = \<lparr>idURI = u, Hash = zeroHash\<rparr>,
      SameContentsOnDisk = False, fhVersion = 0, Content = Inl err\<rparr>"

text \<open>
  Modelled from the spec: \<open>xcontext.Detach\<close> is not part of the sources at hand. The spec
  asks that a read does not fail because the surrounding context is cancelled, and the
  comment in \<open>mustReadFile\<close> calls the detached context uncancellable: the detached context
  is the context with its cancellation cleared.
\<close>

definition Detach :: "Context \<Rightarrow> Context" where
  "Detach ctx = ctx\<lparr>cancelled := False\<rparr>"

definition mustReadFile :: "Context \<Rightarrow> Source \<Rightarrow> DocumentURI \<Rightarrow> Handle" where
  "mustReadFile ctx fs u =
     (case fs (Detach ctx) u of
        Inl err \<Rightarrow> brokenFile u err
      | Inr fh \<Rightarrow> fh)"

datatype Action = UnknownAction | Open | Change | Close | Save | Create | Delete

type_synonym Kind = nat

text \<open>\<open>Text\<close> is a byte slice that may be nil (\<open>None\<close>).\<close>

record Modification =
  URI :: DocumentURI
  Action :: Action
  OnDisk :: bool
  Version :: int
  Text :: "string option"
  LanguageID :: string

text \<open>
  The fields of \<open>cache.Overlay\<close> (uri, content, version, kind, hash, saved), prefixed with
  \<open>ov_\<close>, since the functions of the source use the same words for their variables.
\<close>

record Overlay =
  ov_uri :: DocumentURI
  ov_content :: string
  ov_version :: int
  ov_kind :: Kind
  ov_hash :: Hash
  ov_saved :: bool

text \<open>
  \<open>file.HashOf\<close> and \<open>file.KindForLang\<close> are functions of a package that is not part of
  the sources at hand; the code below takes them as parameters.
\<close>

record FilePkg =
  HashOf :: "string \<Rightarrow> Hash"
  KindForLang :: "string \<Rightarrow> Kind"

type_synonym Overlays = "DocumentURI \<rightharpoonup> Overlay"

text \<open>
  The body of the loop of \<open>overlayFS.updateOverlays\<close>, in the order of the source. \<open>look\<close>
  is the result of \<open>fs.overlays[c.URI]\<close>: \<open>None\<close> when \<open>ok\<close> is false, and then \<open>o\<close> is nil and
  reading a field of it panics. A nil text is stored as the empty content.
\<close>

definition overlayKind :: "FilePkg \<Rightarrow> Modification \<Rightarrow> Overlay option \<Rightarrow> error + Kind" where
  "overlayKind lib c look =
     (case Action c of
        Open \<Rightarrow> Inr (KindForLang lib (LanguageID c))
      | _ \<Rightarrow>
          (case look of
             None \<Rightarrow> Inl (Errorf (''updateOverlays: modifying unopened overlay '' @ URI c))
           | Some ov \<Rightarrow> Inr (ov_kind ov)))"

definition overlayText :: "Modification \<Rightarrow> Overlay option \<Rightarrow> error + string" where
  "overlayText c look =
     (case Text c of
        Some t \<Rightarrow> Inr t
      | None \<Rightarrow>
          if Action c = Save \<or> OnDisk c then
            (case look of
               None \<Rightarrow> Inl (Errorf ''no known content for overlay'')
             | Some ov \<Rightarrow> Inr (ov_content ov))
          else Inr [])"

definition overlayVersion :: "Modification \<Rightarrow> Overlay option \<Rightarrow> error + int" where
  "overlayVersion c look =
     (if OnDisk c \<or> Action c = Save then
        (case look of
           None \<Rightarrow> Inl (Panic ''nil pointer dereference'')
         | Some ov \<Rightarrow> Inr (ov_version ov))
      else Inr (Version c))"

definition overlaySaved ::
  "Context \<Rightarrow> Source \<Rightarrow> Modification \<Rightarrow> Overlay option \<Rightarrow> Hash \<Rightarrow> error + bool" where
  "overlaySaved ctx dlg c look h =
     (case Action c of
        Delete \<Rightarrow> Inr False
      | Save \<Rightarrow>
          (case look of
             None \<Rightarrow> Inl (Panic ''nil pointer dereference'')
           | Some ov \<Rightarrow>
               if Text c \<noteq> None \<and> ov_hash ov \<noteq> h
               then Inl (Errorf (''updateOverlays: overlay '' @ URI c @ '' changed on save''))
               else Inr True)
      | _ \<Rightarrow>
          (let fh = mustReadFile ctx dlg (URI c) in
           Inr (\<not> isl (Content fh) \<and> Hash (fhIdentity fh) = h)))"

definition updateOverlay ::
  "FilePkg \<Rightarrow> Context \<Rightarrow> Source \<Rightarrow> Modification \<Rightarrow> Overlays \<Rightarrow> error + Overlays" where
  "updateOverlay lib ctx dlg c ovs =
     (let look = ovs (URI c) in
      if look = None \<and> OnDisk c then Inr ovs
      else
        (case overlayKind lib c look of
           Inl err \<Rightarrow> Inl err
         | Inr k \<Rightarrow>
             if Action c = Close then Inr (ovs(URI c := None))
             else
               (case overlayText c look of
                  Inl err \<Rightarrow> Inl err
                | Inr txt \<Rightarrow>
                    (case overlayVersion c look of
                       Inl err \<Rightarrow> Inl err
                     | Inr ver \<Rightarrow>
                         (let h = HashOf lib txt in
                          (case overlaySaved ctx dlg c look h of
                             Inl err \<Rightarrow> Inl err
                           | Inr same \<Rightarrow>
                               Inr (ovs(URI c \<mapsto>
                                 \<lparr>ov_uri = URI c, ov_content = txt, ov_version = ver, ov_kind = k,
                                  ov_hash = h, ov_saved = same\<rparr>))))))))"

text \<open>
  \<open>updateOverlays\<close> changes \<open>fs.overlays\<close> in place, one modification after the other, and
  returns at the first error: the result is the error, if any, and the map as it then is.
\<close>

fun updateOverlays ::
  "FilePkg \<Rightarrow> Context \<Rightarrow> Source \<Rightarrow> Modification list \<Rightarrow> Overlays \<Rightarrow> error option \<times> Overlays" where
  "updateOverlays lib ctx dlg [] ovs = (None, ovs)"
| "updateOverlays lib ctx dlg (c # cs) ovs =
     (case updateOverlay lib ctx dlg c ovs of
        Inl err \<Rightarrow> (Some err, ovs)
      | Inr ovs' \<Rightarrow> updateOverlays lib ctx dlg cs ovs')"

subsection \<open>A concrete file system\<close>

definition demo_lib :: FilePkg where
  "demo_lib = \<lparr>HashOf = (\<lambda>t. t), KindForLang = (\<lambda>l. if l = ''go'' then 1 else 0)\<rparr>"

definition demo_disk :: Source where
  "demo_disk ctx u =
     (if cancelled ctx then Inl Cancelled
      else if u = ''file:///a.go''
      then Inr \<lparr>fhURI = u, fhIdentity = \<lparr>idURI = u, Hash = ''package a''\<rparr>,
                SameContentsOnDisk = True, fhVersion = 0, Content = Inr ''package a''\<rparr>
      else Inl (IOError ''no such file''))"

definition open_a :: Modification where
  "open_a = \<lparr>URI = ''file:///a.go'', Action = Open, OnDisk = False, Version = 1,
     Text = Some ''package a'', LanguageID = ''go''\<rparr>"

definition change_b :: Modification where
  "change_b = \<lparr>URI = ''file:///b.go'', Action = Change, OnDisk = False, Version = 2,
     Text = Some ''package b'', LanguageID = []\<rparr>"

definition save_a :: Modification where
  "save_a = \<lparr>URI = ''file:///a.go'', Action = Save, OnDisk = False, Version = 0,
     Text = None, LanguageID = []\<rparr>"

definition overlay_a :: Overlay where
  "overlay_a = \<lparr>ov_uri = ''file:///a.go'', ov_content = ''package a'', ov_version = 1, ov_kind = 1,
     ov_hash = ''package a'', ov_saved = True\<rparr>"

definition overlay_a_edited :: Overlay where
  "overlay_a_edited = \<lparr>ov_uri = ''file:///a.go'', ov_content = ''package a // x'', ov_version = 2,
     ov_kind = 1, ov_hash = ''package a // x'', ov_saved = False\<rparr>"

definition save_a_other :: Modification where
  "save_a_other = \<lparr>URI = ''file:///a.go'', Action = Save, OnDisk = False, Version = 0,
     Text = Some ''package c'', LanguageID = []\<rparr>"

definition cancelled_ctx :: Context where
  "cancelled_ctx = \<lparr>cancelled = True\<rparr>"

section \<open>Text synchronization (didChange)\<close>

record Position =
  Line :: "32 word"
  Character :: "32 word"

record Range =
  Start :: Position
  End :: Position

text \<open>
  \<open>protocol.TextDocumentContentChangeEvent\<close>: the fields Range (a pointer, nil is \<open>None\<close>),
  RangeLength and Text, prefixed with \<open>ev_\<close>.
\<close>

record TextDocumentContentChangeEvent =
  ev_Range :: "Range option"
  ev_RangeLength :: "32 word"
  ev_Text :: string




text \<open>
  \<open>protocol.Mapper\<close> is not part of the sources at hand: \<open>NewMapper(uri, content)\<close> followed
  by \<open>RangeOffsets(range)\<close> is a parameter, a function of the URI, the content and the
  range that returns the two byte offsets or an error.
\<close>

type_synonym Mapper = "DocumentURI \<Rightarrow> string \<Rightarrow> Range \<Rightarrow> error + int \<times> int"

text \<open>
  The loop of \<open>applyIncrementalChanges\<close>. The slice expressions \<open>content[:start]\<close> and
  \<open>content[end:]\<close> panic when \<open>start\<close> is negative or \<open>end\<close> exceeds the length (with
  \<open>start \<le> end\<close> already checked).
\<close>

fun applyChanges_loop ::
  "Mapper \<Rightarrow> DocumentURI \<Rightarrow> string \<Rightarrow> TextDocumentContentChangeEvent list \<Rightarrow> error + string" where
  "applyChanges_loop m uri content [] = Inr content"
| "applyChanges_loop m uri content (change # rest) =
     (case ev_Range change of
        None \<Rightarrow> Inl (ErrInternal ''unexpected nil range for change'')
      | Some r \<Rightarrow>
          (case m uri content r of
             Inl err \<Rightarrow> Inl err
           | Inr (start, end) \<Rightarrow>
               if end < start then Inl (ErrInternal ''invalid range for content change'')
               else if start < 0 \<or> int (length content) < end
               then Inl (Panic ''slice bounds out of range'')
               else applyChanges_loop m uri
                      (take (nat start) content @ ev_Text change @ drop (nat end) content) rest))"

definition applyIncrementalChanges ::
  "Mapper \<Rightarrow> Source \<Rightarrow> Context \<Rightarrow> DocumentURI \<Rightarrow> TextDocumentContentChangeEvent list
     \<Rightarrow> error + string" where
  "applyIncrementalChanges m readFile ctx uri changes =
     (case readFile ctx uri of
        Inl err \<Rightarrow> Inl err
      | Inr fh \<Rightarrow>
          (case Content fh of
             Inl err \<Rightarrow> Inl (ErrInternal ''file not found'')
           | Inr content \<Rightarrow> applyChanges_loop m uri content changes))"

definition changedText ::
  "Mapper \<Rightarrow> Source \<Rightarrow> Context \<Rightarrow> DocumentURI \<Rightarrow> TextDocumentContentChangeEvent list
     \<Rightarrow> error + string" where
  "changedText m readFile ctx uri changes =
     (if length changes = 0 then Inl (ErrInternal ''no content changes provided'')
      else if length changes = 1 \<and> ev_Range (changes ! 0) = None
                \<and> ev_RangeLength (changes ! 0) = 0
      then Inr (ev_Text (changes ! 0))
      else applyIncrementalChanges m readFile ctx uri changes)"

section \<open>Views and the session\<close>




















subsection \<open>A concrete server\<close>

text \<open>
  A mapper for contents of one line: the offset of a position of line 0 is its character,
  and a position outside the content is an error.
\<close>

definition demo_offset :: "string \<Rightarrow> Position \<Rightarrow> error + int" where
  "demo_offset content p =
     (if Line p \<noteq> 0 \<or> length content < unat (Character p)
      then Inl (IOError ''position out of range'')
      else Inr (int (unat (Character p))))"

definition demo_mapper :: Mapper where
  "demo_mapper uri content r =
     (case demo_offset content (Start r) of
        Inl err \<Rightarrow> Inl err
      | Inr start \<Rightarrow>
          (case demo_offset content (End r) of
             Inl err \<Rightarrow> Inl err
           | Inr end \<Rightarrow> Inr (start, end)))"









definition pos :: "nat \<Rightarrow> nat \<Rightarrow> Position" where
  "pos l c = \<lparr>Line = of_nat l, Character = of_nat c\<rparr>"



definition valid_change :: TextDocumentContentChangeEvent where
  "valid_change = \<lparr>ev_Range = Some \<lparr>Start = pos 0 8, End = pos 0 9\<rparr>,
     ev_RangeLength = 1, ev_Text = ''b''\<rparr>"

definition full_change :: TextDocumentContentChangeEvent where
  "full_change = \<lparr>ev_Range = None, ev_RangeLength = 0, ev_Text = ''package c''\<rparr>"




section \<open>Memoized vulnerability analysis (Snapshot.ModVuln)\<close>

text \<open>
  \<open>Snapshot.ModVuln\<close> takes the snapshot's mutex twice: once around the lookup
  \<open>s.modVulnHandles.Get(modURI)\<close>, and, after a miss, once around
  \<open>s.modVulnHandles.Set(modURI, entry, nil)\<close>, with \<open>memoize.NewPromise\<close> in between; then
  it awaits \<open>entry\<close>, its own local variable. Each of these is one step of a caller, and
  callers interleave between steps. A caller is at its lookup, has missed and is about to
  create and store a promise, holds a promise it is about to await, or has returned with
  the result of a promise. Promises are numbered in the order of their creation.
\<close>

datatype caller = AtGet | AtCreate | AtAwait nat | Returned nat

text \<open>
  The state: the map \<open>modVulnHandles\<close> of the snapshot, the number of promises created, the
  promises whose function (\<open>scan.VulnerablePackages\<close>) has run, in the order of the runs,
  and the callers.
\<close>

record ModVulnState =
  modVulnHandles :: "DocumentURI \<rightharpoonup> nat"
  promises :: nat
  computed :: "nat list"
  callers :: "caller list"

text \<open>
  Modelled from the spec: \<open>memoize.Promise\<close> and \<open>Snapshot.awaitPromise\<close> are not part of the
  sources at hand. The spec: all awaiters of a handle block on the same result, and the
  computation of a handle starts once. So awaiting a promise runs its function if it has
  not run yet, and returns its result.
\<close>

definition awaitPromise :: "nat \<Rightarrow> nat list \<Rightarrow> nat list" where
  "awaitPromise p finished = (if p \<in> set finished then finished else finished @ [p])"

definition ModVuln_step :: "DocumentURI \<Rightarrow> nat \<Rightarrow> ModVulnState \<Rightarrow> ModVulnState" where
  "ModVuln_step modURI t st =
     (if t < length (callers st) then
        (case callers st ! t of
           AtGet \<Rightarrow>
             (case modVulnHandles st modURI of
                Some p \<Rightarrow> st\<lparr>callers := (callers st)[t := AtAwait p]\<rparr>
              | None \<Rightarrow> st\<lparr>callers := (callers st)[t := AtCreate]\<rparr>)
         | AtCreate \<Rightarrow>
             (let p = promises st in
              st\<lparr>modVulnHandles := (modVulnHandles st)(modURI \<mapsto> p),
                 promises := p + 1,
                 callers := (callers st)[t := AtAwait p]\<rparr>)
         | AtAwait p \<Rightarrow>
             st\<lparr>computed := awaitPromise p (computed st),
                callers := (callers st)[t := Returned p]\<rparr>
         | Returned p \<Rightarrow> st)
      else st)"

text \<open>A schedule is the list of the callers that take the next step, in order.\<close>

fun ModVuln_run :: "DocumentURI \<Rightarrow> nat list \<Rightarrow> ModVulnState \<Rightarrow> ModVulnState" where
  "ModVuln_run modURI [] st = st"
| "ModVuln_run modURI (t # ts) st = ModVuln_run modURI ts (ModVuln_step modURI t st)"

definition ModVuln_init :: "nat \<Rightarrow> ModVulnState" where
  "ModVuln_init n =
     \<lparr>modVulnHandles = Map.empty, promises = 0, computed = [], callers = replicate n AtGet\<rparr>"

section \<open>Intermediate test variants and package selection: proofs\<close>

lemma RemoveITV_loop_inv:
  "w \<le> i \<Longrightarrow> i \<le> length arr \<Longrightarrow>
   RemoveITV_loop arr w i = (arr', w') \<Longrightarrow>
   take w' arr' = take w arr @ filter (\<lambda>m. \<not> IsIntermediateTestVariant m) (drop i arr)"
proof (induction arr w i arbitrary: arr' w' rule: RemoveITV_loop.induct)
  case (1 arr w i)
  show ?case
  proof (cases "i < length arr")
    case False
    then have "RemoveITV_loop arr w i = (arr, w)"
      by (subst RemoveITV_loop.simps) simp
    with "1.prems" False show ?thesis by simp
  next
    case lt: True
    define m where "m = arr ! i"
    have dr: "drop i arr = m # drop (Suc i) arr"
      using lt by (simp add: m_def Cons_nth_drop_Suc)
    show ?thesis
    proof (cases "IsIntermediateTestVariant m")
      case True
      with "1.prems" lt have "RemoveITV_loop arr w (Suc i) = (arr', w')"
        by (simp add: m_def RemoveITV_loop.simps[of arr w i])
      with "1.IH"(2)[of m arr' w'] True lt "1.prems"(1)
      have "take w' arr' = take w arr @ filter (\<lambda>m. \<not> IsIntermediateTestVariant m) (drop (Suc i) arr)"
        by (simp add: m_def)
      with True dr show ?thesis by simp
    next
      case False
      with "1.prems" lt have run: "RemoveITV_loop (arr[w := m]) (Suc w) (Suc i) = (arr', w')"
        by (simp add: m_def RemoveITV_loop.simps[of arr w i])
      have "take w' arr' = take (Suc w) (arr[w := m])
              @ filter (\<lambda>m. \<not> IsIntermediateTestVariant m) (drop (Suc i) (arr[w := m]))"
        using "1.IH"(1)[of m arr' w'] False lt "1.prems"(1) run by (simp add: m_def)
      moreover have "take (Suc w) (arr[w := m]) = take w arr @ [m]"
        using "1.prems"(1) lt by (simp add: take_Suc_conv_app_nth)
      moreover have "drop (Suc i) (arr[w := m]) = drop (Suc i) arr"
        using "1.prems"(1) by simp
      ultimately show ?thesis using False dr by simp
    qed
  qed
qed

lemma RemoveIntermediateTestVariants_filter:
  "RemoveIntermediateTestVariants metas = filter (\<lambda>m. \<not> IsIntermediateTestVariant m) metas"
proof -
  obtain arr w where run: "RemoveITV_loop metas 0 0 = (arr, w)"
    by (cases "RemoveITV_loop metas 0 0")
  from RemoveITV_loop_inv[OF _ _ run] show ?thesis
    by (simp add: RemoveIntermediateTestVariants_def run)
qed



lemma select_requests:
  assumes sel: "\<And>xs. xs \<noteq> [] \<Longrightarrow> sel xs \<in> set xs"
    and ids: "ids \<in> set (snd (selectPackageForFile ctx snapshot uri sel))"
  shows "\<exists>md metas. MetadataForFile snapshot ctx uri = Inr metas \<and> md \<in> set metas
            \<and> \<not> IsIntermediateTestVariant md \<and> ids = [ID md]"
proof (cases "MetadataForFile snapshot ctx uri")
  case (Inl e)
  with ids show ?thesis by (simp add: selectPackageForFile_def)
next
  case (Inr metas)
  let ?f = "filter (\<lambda>m. \<not> IsIntermediateTestVariant m) metas"
  show ?thesis
  proof (cases "?f = []")
    case True
    with ids Inr show ?thesis
      by (simp add: selectPackageForFile_def RemoveIntermediateTestVariants_filter)
  next
    case False
    with ids Inr have "ids = [ID (sel ?f)]"
      by (simp add: selectPackageForFile_def RemoveIntermediateTestVariants_filter Let_def)
    moreover from sel[OF False] have "sel ?f \<in> set metas \<and> \<not> IsIntermediateTestVariant (sel ?f)"
      by auto
    ultimately show ?thesis using Inr by blast
  qed
qed

lemma first_in_set: "xs \<noteq> [] \<Longrightarrow> xs ! 0 \<in> set xs"
  by (cases xs) auto

lemma last_in_set: "xs \<noteq> [] \<Longrightarrow> xs ! (length xs - 1) \<in> set xs"
  by (cases xs rule: rev_cases) auto

text \<open>
  Claim C1. For every file URI and every snapshot, the narrowest and widest package
  selections never yield an intermediate test variant: the metadata returned by
  \<open>NarrowestMetadataForFile\<close> is an element of the list of \<open>MetadataForFile\<close> that is
  not an intermediate test variant, and every \<open>TypeCheck\<close> request issued by
  \<open>NarrowestPackageForFile\<close> and \<open>WidestPackageForFile\<close> names exactly one package, the id
  of such an element.
\<close>

theorem selection_never_itv:
  "(\<forall>md. NarrowestMetadataForFile ctx snapshot uri = Inr md \<longrightarrow>
      \<not> IsIntermediateTestVariant md
      \<and> (\<exists>metas. MetadataForFile snapshot ctx uri = Inr metas \<and> md \<in> set metas))
   \<and> (\<forall>ids \<in> set (snd (NarrowestPackageForFile ctx snapshot uri)).
        \<exists>md metas. MetadataForFile snapshot ctx uri = Inr metas \<and> md \<in> set metas
            \<and> \<not> IsIntermediateTestVariant md \<and> ids = [ID md])
   \<and> (\<forall>ids \<in> set (snd (WidestPackageForFile ctx snapshot uri)).
        \<exists>md metas. MetadataForFile snapshot ctx uri = Inr metas \<and> md \<in> set metas
            \<and> \<not> IsIntermediateTestVariant md \<and> ids = [ID md])"
proof (intro conjI allI impI ballI)
  fix md assume a: "NarrowestMetadataForFile ctx snapshot uri = Inr md"
  then obtain metas where m: "MetadataForFile snapshot ctx uri = Inr metas"
    by (cases "MetadataForFile snapshot ctx uri") (simp_all add: NarrowestMetadataForFile_def)
  let ?f = "filter (\<lambda>m. \<not> IsIntermediateTestVariant m) metas"
  from a m have ne: "?f \<noteq> []" and md: "md = ?f ! 0"
    by (auto simp: NarrowestMetadataForFile_def RemoveIntermediateTestVariants_filter Let_def
             split: if_splits)
  from first_in_set[OF ne] md have "md \<in> set ?f" by simp
  then show "\<not> IsIntermediateTestVariant md" by simp
  from \<open>md \<in> set ?f\<close> m show "\<exists>metas. MetadataForFile snapshot ctx uri = Inr metas \<and> md \<in> set metas"
    by auto
next
  fix ids assume "ids \<in> set (snd (NarrowestPackageForFile ctx snapshot uri))"
  then show "\<exists>md metas. MetadataForFile snapshot ctx uri = Inr metas \<and> md \<in> set metas
            \<and> \<not> IsIntermediateTestVariant md \<and> ids = [ID md]"
    unfolding NarrowestPackageForFile_def by (rule select_requests[rotated]) (rule first_in_set)
next
  fix ids assume "ids \<in> set (snd (WidestPackageForFile ctx snapshot uri))"
  then show "\<exists>md metas. MetadataForFile snapshot ctx uri = Inr metas \<and> md \<in> set metas
            \<and> \<not> IsIntermediateTestVariant md \<and> ids = [ID md]"
    unfolding WidestPackageForFile_def by (rule select_requests[rotated]) (rule last_in_set)
qed

lemma demo_filtered:
  "RemoveIntermediateTestVariants demo_metas =
     [mk_meta ''p'' ''p'' [] [''file:///p/p.go''],
      mk_meta ''p [p.test]'' ''p'' ''p'' [''file:///p/p.go'', ''file:///p/p_test.go'']]"
  by (simp add: RemoveIntermediateTestVariants_filter demo_metas_def mk_meta_def
        IsIntermediateTestVariant_def)

lemma demo_for_p: "MetadataForFile demo_snapshot demo_ctx ''file:///p/p.go'' = Inr demo_metas"
  by (simp add: demo_snapshot_def demo_MetadataForFile_def demo_ctx_def demo_metas_def mk_meta_def)

theorem selection_never_itv_witness:
  "NarrowestMetadataForFile demo_ctx demo_snapshot ''file:///p/p.go''
     = Inr (mk_meta ''p'' ''p'' [] [''file:///p/p.go''])
   \<and> \<not> IsIntermediateTestVariant (mk_meta ''p'' ''p'' [] [''file:///p/p.go''])
   \<and> IsIntermediateTestVariant (demo_metas ! 1)
   \<and> snd (NarrowestPackageForFile demo_ctx demo_snapshot ''file:///p/p.go'') = [[''p'']]
   \<and> snd (WidestPackageForFile demo_ctx demo_snapshot ''file:///p/p.go'') = [[''p [p.test]'']]"
proof -
  have n: "NarrowestMetadataForFile demo_ctx demo_snapshot ''file:///p/p.go''
     = Inr (mk_meta ''p'' ''p'' [] [''file:///p/p.go''])"
    by (simp add: NarrowestMetadataForFile_def demo_for_p demo_filtered)
  have np: "snd (NarrowestPackageForFile demo_ctx demo_snapshot ''file:///p/p.go'') = [[''p'']]"
    by (simp add: NarrowestPackageForFile_def selectPackageForFile_def demo_for_p demo_filtered
          mk_meta_def)
  have wp: "snd (WidestPackageForFile demo_ctx demo_snapshot ''file:///p/p.go'') = [[''p [p.test]'']]"
    by (simp add: WidestPackageForFile_def selectPackageForFile_def demo_for_p demo_filtered
          mk_meta_def)
  have itv: "IsIntermediateTestVariant (demo_metas ! 1)"
    by (simp add: demo_metas_def mk_meta_def IsIntermediateTestVariant_def)
  from selection_never_itv[of demo_ctx demo_snapshot "''file:///p/p.go''"] n
  have "\<not> IsIntermediateTestVariant (mk_meta ''p'' ''p'' [] [''file:///p/p.go''])"
    by blast
  with n np wp itv show ?thesis by blast
qed





text \<open>
  Claim C9. A metadata entry is an intermediate test variant exactly when its ForTest is
  non-empty, differs from its PkgPath, and ForTest + "_test" differs from its PkgPath.
  \<open>RemoveIntermediateTestVariants\<close> keeps exactly the other entries, so it never removes an
  ordinary package, an in-package test variant or an external test package, and it keeps
  them in their relative order.
\<close>

theorem itv_classification_and_filter:
  "(IsIntermediateTestVariant m \<longleftrightarrow>
      ForTest m \<noteq> [] \<and> ForTest m \<noteq> PkgPath m \<and> ForTest m @ ''_test'' \<noteq> PkgPath m)
   \<and> RemoveIntermediateTestVariants metas = filter (\<lambda>x. \<not> IsIntermediateTestVariant x) metas
   \<and> (\<forall>x \<in> set metas.
         ForTest x = [] \<or> PkgPath x = ForTest x \<or> PkgPath x = ForTest x @ ''_test''
         \<longrightarrow> x \<in> set (RemoveIntermediateTestVariants metas))
   \<and> subseq (RemoveIntermediateTestVariants metas) metas"
proof -
  have "subseq (filter (\<lambda>x. \<not> IsIntermediateTestVariant x) metas) metas"
    by (rule subseq_filter_left)
  then show ?thesis
    by (auto simp: RemoveIntermediateTestVariants_filter IsIntermediateTestVariant_def)
qed

theorem itv_classification_and_filter_witness:
  "IsIntermediateTestVariant (mk_meta ''p [q.test]'' ''p'' ''q'' [''file:///p/p.go''])
   \<and> RemoveIntermediateTestVariants demo_metas =
     [mk_meta ''p'' ''p'' [] [''file:///p/p.go''],
      mk_meta ''p [p.test]'' ''p'' ''p'' [''file:///p/p.go'', ''file:///p/p_test.go'']]
   \<and> subseq (RemoveIntermediateTestVariants demo_metas) demo_metas"
  using itv_classification_and_filter[of "mk_meta ''p [q.test]'' ''p'' ''q'' [''file:///p/p.go'']" demo_metas]
  by (simp add: demo_metas_def mk_meta_def IsIntermediateTestVariant_def)

section \<open>Overlays: proofs\<close>

lemma updateOverlays_append:
  "updateOverlays lib ctx dlg pre ovs = (None, ovs') \<Longrightarrow>
   updateOverlays lib ctx dlg (pre @ cs) ovs = updateOverlays lib ctx dlg cs ovs'"
  by (induction pre arbitrary: ovs) (auto split: sum.splits)

lemma updateOverlays_error_split:
  "fst (updateOverlays lib ctx dlg cs ovs) = Some err \<Longrightarrow>
   \<exists>pre c post. cs = pre @ c # post
      \<and> updateOverlays lib ctx dlg pre ovs = (None, snd (updateOverlays lib ctx dlg cs ovs))
      \<and> updateOverlay lib ctx dlg c (snd (updateOverlays lib ctx dlg cs ovs)) = Inl err"
proof (induction cs arbitrary: ovs)
  case Nil
  then show ?case by simp
next
  case (Cons c cs)
  show ?case
  proof (cases "updateOverlay lib ctx dlg c ovs")
    case (Inl e)
    with Cons.prems have "e = err" by simp
    with Inl have "c # cs = [] @ c # cs
        \<and> updateOverlays lib ctx dlg [] ovs = (None, snd (updateOverlays lib ctx dlg (c # cs) ovs))
        \<and> updateOverlay lib ctx dlg c (snd (updateOverlays lib ctx dlg (c # cs) ovs)) = Inl err"
      by simp
    then show ?thesis by blast
  next
    case (Inr ovs1)
    with Cons.prems have "fst (updateOverlays lib ctx dlg cs ovs1) = Some err" by simp
    from Cons.IH[OF this] obtain pre d post where
      s: "cs = pre @ d # post"
      and p: "updateOverlays lib ctx dlg pre ovs1 = (None, snd (updateOverlays lib ctx dlg cs ovs1))"
      and f: "updateOverlay lib ctx dlg d (snd (updateOverlays lib ctx dlg cs ovs1)) = Inl err"
      by blast
    have r: "updateOverlays lib ctx dlg (c # cs) ovs = updateOverlays lib ctx dlg cs ovs1"
      using Inr by simp
    have "c # cs = (c # pre) @ d # post" using s by simp
    moreover have "updateOverlays lib ctx dlg (c # pre) ovs
        = (None, snd (updateOverlays lib ctx dlg (c # cs) ovs))"
      using Inr p r by simp
    moreover have "updateOverlay lib ctx dlg d (snd (updateOverlays lib ctx dlg (c # cs) ovs)) = Inl err"
      using f r by simp
    ultimately show ?thesis by blast
  qed
qed

text \<open>
  Claim C3, as stated, fails: a batch that opens \<open>a.go\<close> and then changes the unopened
  \<open>b.go\<close> returns an error, and the overlay of \<open>a.go\<close> stays in the store.
\<close>

theorem updateOverlays_not_transactional:
  "fst (updateOverlays demo_lib demo_ctx demo_disk [open_a, change_b] Map.empty)
     = Some (Errorf ''updateOverlays: modifying unopened overlay file:///b.go'')
   \<and> snd (updateOverlays demo_lib demo_ctx demo_disk [open_a, change_b] Map.empty) ''file:///a.go''
     = Some overlay_a
   \<and> (Map.empty :: Overlays) ''file:///a.go'' = None"
  by (simp add: updateOverlay_def overlayKind_def overlayText_def overlayVersion_def
        overlaySaved_def mustReadFile_def Detach_def demo_lib_def demo_ctx_def demo_disk_def
        open_a_def change_b_def overlay_a_def Let_def)

text \<open>
  Claim C3, amended. Overlay updates are atomic per modification, not per batch: when
  \<open>updateOverlays\<close> returns an error, the batch splits into the modifications before the
  failing one, the failing one and the rest; the store is exactly the one that the
  modifications before the failing one produce, and the failing modification, applied to
  that store, is what returns the error.
\<close>

theorem updateOverlays_error_keeps_prefix:
  "fst (updateOverlays lib ctx dlg cs ovs) = Some err \<Longrightarrow>
   \<exists>pre c post. cs = pre @ c # post
      \<and> updateOverlays lib ctx dlg pre ovs = (None, snd (updateOverlays lib ctx dlg cs ovs))
      \<and> updateOverlay lib ctx dlg c (snd (updateOverlays lib ctx dlg cs ovs)) = Inl err"
  by (rule updateOverlays_error_split)

theorem updateOverlays_error_keeps_prefix_witness:
  "\<exists>pre c post. [open_a, change_b] = pre @ c # post
      \<and> updateOverlays demo_lib demo_ctx demo_disk pre Map.empty
          = (None, snd (updateOverlays demo_lib demo_ctx demo_disk [open_a, change_b] Map.empty))
      \<and> updateOverlay demo_lib demo_ctx demo_disk c
            (snd (updateOverlays demo_lib demo_ctx demo_disk [open_a, change_b] Map.empty))
          = Inl (Errorf ''updateOverlays: modifying unopened overlay file:///b.go'')"
proof -
  have "fst (updateOverlays demo_lib demo_ctx demo_disk [open_a, change_b] Map.empty)
     = Some (Errorf ''updateOverlays: modifying unopened overlay file:///b.go'')"
    by (simp add: updateOverlay_def overlayKind_def overlayText_def overlayVersion_def
        overlaySaved_def mustReadFile_def Detach_def demo_lib_def demo_ctx_def demo_disk_def
        open_a_def change_b_def Let_def)
  then show ?thesis by (rule updateOverlays_error_keeps_prefix)
qed

text \<open>
  Every overlay that \<open>updateOverlays\<close> stores carries the hash of its content, so a store
  built by it from the empty store satisfies the hypothesis of the next theorem.
\<close>

lemma updateOverlay_hash_invariant:
  assumes inv: "\<forall>u ov. ovs u = Some ov \<longrightarrow> ov_hash ov = HashOf lib (ov_content ov)"
    and step: "updateOverlay lib ctx dlg c ovs = Inr ovs'"
  shows "\<forall>u ov. ovs' u = Some ov \<longrightarrow> ov_hash ov = HashOf lib (ov_content ov)"
  using inv step
  by (auto simp: updateOverlay_def Let_def split: if_splits sum.splits)

lemma updateOverlays_hash_invariant:
  "\<forall>u ov. ovs u = Some ov \<longrightarrow> ov_hash ov = HashOf lib (ov_content ov) \<Longrightarrow>
   \<forall>u ov. snd (updateOverlays lib ctx dlg cs ovs) u = Some ov \<longrightarrow> ov_hash ov = HashOf lib (ov_content ov)"
proof (induction cs arbitrary: ovs)
  case Nil
  then show ?case by simp
next
  case (Cons c cs)
  show ?case
  proof (cases "updateOverlay lib ctx dlg c ovs")
    case (Inl e)
    with Cons.prems show ?thesis by simp
  next
    case (Inr ovs1)
    from updateOverlay_hash_invariant[OF Cons.prems Inr] Cons.IH[of ovs1] Inr
    show ?thesis by simp
  qed
qed

text \<open>
  Claim C7. A Save of an open overlay whose stored hash is the hash of its content: if
  the client supplies text whose hash differs from the stored hash, the modification
  fails with "overlay changed on save"; otherwise the overlay is replaced by one with
  the saved flag set, the same version, kind and hash, and as content the stored content
  (no text supplied) or the supplied text of equal hash. Where the hash function does not
  collide on the supplied text and the stored content, the content is the stored content.
\<close>

theorem save_checks_hash_and_marks_saved:
  assumes op: "ovs (URI c) = Some ov"
    and sv: "Action c = Save"
    and wf: "ov_hash ov = HashOf lib (ov_content ov)"
  shows
    "updateOverlay lib ctx dlg c ovs =
       (if \<exists>t. Text c = Some t \<and> ov_hash ov \<noteq> HashOf lib t
        then Inl (Errorf (''updateOverlays: overlay '' @ URI c @ '' changed on save''))
        else Inr (ovs(URI c \<mapsto>
               ov\<lparr>ov_uri := URI c,
                  ov_content := (case Text c of None \<Rightarrow> ov_content ov | Some t \<Rightarrow> t),
                  ov_saved := True\<rparr>)))
     \<and> (\<not> (\<exists>t. Text c = Some t \<and> ov_hash ov \<noteq> HashOf lib t)
          \<and> (\<forall>t. Text c = Some t \<longrightarrow> HashOf lib t = HashOf lib (ov_content ov) \<longrightarrow> t = ov_content ov)
        \<longrightarrow> updateOverlay lib ctx dlg c ovs
              = Inr (ovs(URI c \<mapsto> ov\<lparr>ov_uri := URI c, ov_saved := True\<rparr>)))"
proof -
  let ?txt = "case Text c of None \<Rightarrow> ov_content ov | Some t \<Rightarrow> t"
  have k: "overlayKind lib c (Some ov) = Inr (ov_kind ov)"
    using sv by (simp add: overlayKind_def)
  have t: "overlayText c (Some ov) = Inr ?txt"
    using sv by (simp add: overlayText_def split: option.split)
  have v: "overlayVersion c (Some ov) = Inr (ov_version ov)"
    using sv by (simp add: overlayVersion_def)
  have s: "overlaySaved ctx dlg c (Some ov) h =
      (if Text c \<noteq> None \<and> ov_hash ov \<noteq> h
       then Inl (Errorf (''updateOverlays: overlay '' @ URI c @ '' changed on save''))
       else Inr True)" for h
    using sv by (simp add: overlaySaved_def)
  have step: "updateOverlay lib ctx dlg c ovs =
      (if Text c \<noteq> None \<and> ov_hash ov \<noteq> HashOf lib ?txt
       then Inl (Errorf (''updateOverlays: overlay '' @ URI c @ '' changed on save''))
       else Inr (ovs(URI c \<mapsto>
              \<lparr>ov_uri = URI c, ov_content = ?txt, ov_version = ov_version ov, ov_kind = ov_kind ov,
               ov_hash = HashOf lib ?txt, ov_saved = True\<rparr>)))"
    using op sv by (simp add: updateOverlay_def k t v s Let_def)
  show ?thesis
  proof (cases "Text c")
    case None
    have "\<lparr>ov_uri = URI c, ov_content = ov_content ov, ov_version = ov_version ov, ov_kind = ov_kind ov,
           ov_hash = HashOf lib (ov_content ov), ov_saved = True\<rparr> = ov\<lparr>ov_uri := URI c, ov_saved := True\<rparr>"
      using wf by (cases ov) simp
    with None step show ?thesis by simp
  next
    case (Some t)
    show ?thesis
    proof (cases "ov_hash ov = HashOf lib t")
      case False
      with Some step show ?thesis by simp
    next
      case True
      have e1: "\<lparr>ov_uri = URI c, ov_content = t, ov_version = ov_version ov, ov_kind = ov_kind ov,
           ov_hash = HashOf lib t, ov_saved = True\<rparr> = ov\<lparr>ov_uri := URI c, ov_content := t, ov_saved := True\<rparr>"
        using True by (cases ov) simp
      have e2: "t = ov_content ov \<Longrightarrow>
           ov\<lparr>ov_uri := URI c, ov_content := t, ov_saved := True\<rparr> = ov\<lparr>ov_uri := URI c, ov_saved := True\<rparr>"
        by (cases ov) simp
      from Some True step e1 have r: "updateOverlay lib ctx dlg c ovs
          = Inr (ovs(URI c \<mapsto> ov\<lparr>ov_uri := URI c, ov_content := t, ov_saved := True\<rparr>))"
        by simp
      with Some True e2 wf show ?thesis by auto
    qed
  qed
qed

theorem save_checks_hash_and_marks_saved_witness:
  "updateOverlay demo_lib demo_ctx demo_disk save_a [''file:///a.go'' \<mapsto> overlay_a_edited]
     = Inr [''file:///a.go'' \<mapsto> overlay_a_edited\<lparr>ov_saved := True\<rparr>]
   \<and> updateOverlay demo_lib demo_ctx demo_disk save_a_other [''file:///a.go'' \<mapsto> overlay_a_edited]
     = Inl (Errorf ''updateOverlays: overlay file:///a.go changed on save'')"
proof -
  let ?ovs = "[''file:///a.go'' \<mapsto> overlay_a_edited]"
  have 1: "?ovs (URI save_a) = Some overlay_a_edited"
    and 2: "?ovs (URI save_a_other) = Some overlay_a_edited"
    by (simp_all add: save_a_def save_a_other_def)
  have wf: "ov_hash overlay_a_edited = HashOf demo_lib (ov_content overlay_a_edited)"
    by (simp add: overlay_a_edited_def demo_lib_def)
  have a: "updateOverlay demo_lib demo_ctx demo_disk save_a ?ovs
      = Inr [''file:///a.go'' \<mapsto> overlay_a_edited\<lparr>ov_saved := True\<rparr>]"
    using save_checks_hash_and_marks_saved[of ?ovs save_a overlay_a_edited demo_lib demo_ctx demo_disk] 1 wf
    by (simp add: save_a_def overlay_a_edited_def)
  have b: "updateOverlay demo_lib demo_ctx demo_disk save_a_other ?ovs
      = Inl (Errorf ''updateOverlays: overlay file:///a.go changed on save'')"
    using save_checks_hash_and_marks_saved[of ?ovs save_a_other overlay_a_edited demo_lib demo_ctx demo_disk] 2 wf
    by (simp add: save_a_other_def overlay_a_edited_def demo_lib_def)
  from a b show ?thesis by simp
qed

text \<open>
  Claim C8. \<open>mustReadFile\<close> returns a handle, never an error: it reads with a detached
  context, which is not cancelled whatever the caller's context is, so its result does
  not depend on the caller's cancellation; and when the read fails it returns the broken
  handle of the same URI, whose Content is the stored error, whose Identity is the URI
  with the zero hash, which reports SameContentsOnDisk false and Version 0.
\<close>

theorem mustReadFile_degraded_handle:
  "\<not> cancelled (Detach ctx)
   \<and> mustReadFile (ctx\<lparr>cancelled := b\<rparr>) fs u = mustReadFile ctx fs u
   \<and> (\<forall>fh. fs (Detach ctx) u = Inr fh \<longrightarrow> mustReadFile ctx fs u = fh)
   \<and> (\<forall>err. fs (Detach ctx) u = Inl err \<longrightarrow>
         mustReadFile ctx fs u = brokenFile u err
       \<and> fhURI (mustReadFile ctx fs u) = u
       \<and> Content (mustReadFile ctx fs u) = Inl err
       \<and> fhIdentity (mustReadFile ctx fs u) = \<lparr>idURI = u, Hash = zeroHash\<rparr>
       \<and> \<not> SameContentsOnDisk (mustReadFile ctx fs u)
       \<and> fhVersion (mustReadFile ctx fs u) = 0)"
  by (simp add: mustReadFile_def Detach_def brokenFile_def)

theorem mustReadFile_degraded_handle_witness:
  "demo_disk (Detach cancelled_ctx) ''file:///b.go'' = Inl (IOError ''no such file'')
   \<and> Content (mustReadFile cancelled_ctx demo_disk ''file:///b.go'') = Inl (IOError ''no such file'')
   \<and> fhIdentity (mustReadFile cancelled_ctx demo_disk ''file:///b.go'')
       = \<lparr>idURI = ''file:///b.go'', Hash = zeroHash\<rparr>
   \<and> Content (mustReadFile cancelled_ctx demo_disk ''file:///a.go'') = Inr ''package a''"
proof -
  have f: "demo_disk (Detach cancelled_ctx) ''file:///b.go'' = Inl (IOError ''no such file'')"
    by (simp add: demo_disk_def Detach_def cancelled_ctx_def)
  have g: "demo_disk (Detach cancelled_ctx) ''file:///a.go''
      = Inr \<lparr>fhURI = ''file:///a.go'', fhIdentity = \<lparr>idURI = ''file:///a.go'', Hash = ''package a''\<rparr>,
                SameContentsOnDisk = True, fhVersion = 0, Content = Inr ''package a''\<rparr>"
    by (simp add: demo_disk_def Detach_def cancelled_ctx_def)
  from mustReadFile_degraded_handle[of cancelled_ctx False demo_disk "''file:///b.go''"] f
  have "Content (mustReadFile cancelled_ctx demo_disk ''file:///b.go'') = Inl (IOError ''no such file'')
      \<and> fhIdentity (mustReadFile cancelled_ctx demo_disk ''file:///b.go'')
       = \<lparr>idURI = ''file:///b.go'', Hash = zeroHash\<rparr>"
    by blast
  moreover from mustReadFile_degraded_handle[of cancelled_ctx False demo_disk "''file:///a.go''"] g
  have "Content (mustReadFile cancelled_ctx demo_disk ''file:///a.go'') = Inr ''package a''"
    by simp
  ultimately show ?thesis using f by simp
qed

section \<open>Text synchronization: proofs\<close>









text \<open>
  Claim C10. \<open>changedText\<close> fails on an empty list of changes; a single change with nil
  Range and zero RangeLength yields its text as the new content, whatever the file
  system holds (the file is not read); every other list is applied incrementally.
\<close>

theorem changedText_cases:
  "changedText m readFile ctx uri [] = Inl (ErrInternal ''no content changes provided'')
   \<and> (ev_Range c = None \<and> ev_RangeLength c = 0 \<longrightarrow>
        changedText m readFile ctx uri [c] = Inr (ev_Text c))
   \<and> (\<not> (ev_Range c = None \<and> ev_RangeLength c = 0) \<longrightarrow>
        changedText m readFile ctx uri [c] = applyIncrementalChanges m readFile ctx uri [c])
   \<and> changedText m readFile ctx uri (c # d # cs)
        = applyIncrementalChanges m readFile ctx uri (c # d # cs)"
  by (simp add: changedText_def)

theorem changedText_cases_witness:
  "changedText demo_mapper demo_disk demo_ctx ''file:///b.go'' [full_change] = Inr ''package c''
   \<and> changedText demo_mapper demo_disk demo_ctx ''file:///b.go'' [valid_change]
       = Inl (IOError ''no such file'')
   \<and> changedText demo_mapper demo_disk demo_ctx ''file:///a.go'' [valid_change]
       = Inr ''package b''"
proof -
  have 1: "ev_Range full_change = None \<and> ev_RangeLength full_change = 0"
    and 2: "\<not> (ev_Range valid_change = None \<and> ev_RangeLength valid_change = 0)"
    by (simp_all add: full_change_def valid_change_def)
  have a: "changedText demo_mapper demo_disk demo_ctx ''file:///b.go'' [full_change] = Inr ''package c''"
    using changedText_cases[of demo_mapper demo_disk demo_ctx "''file:///b.go''" full_change] 1
    by (simp add: full_change_def)
  have b: "changedText demo_mapper demo_disk demo_ctx ''file:///b.go'' [valid_change]
       = Inl (IOError ''no such file'')"
    using changedText_cases[of demo_mapper demo_disk demo_ctx "''file:///b.go''" valid_change] 2
    by (simp add: applyIncrementalChanges_def demo_disk_def demo_ctx_def)
  have c: "changedText demo_mapper demo_disk demo_ctx ''file:///a.go'' [valid_change]
       = Inr ''package b''"
    using changedText_cases[of demo_mapper demo_disk demo_ctx "''file:///a.go''" valid_change] 2
    by (simp add: applyIncrementalChanges_def demo_disk_def demo_ctx_def valid_change_def
          demo_mapper_def demo_offset_def pos_def)
  from a b c show ?thesis by simp
qed

section \<open>Views: proofs\<close>









section \<open>Memoized vulnerability analysis: two callers\<close>

text \<open>
  Claim C2. Two callers request the analysis of the same go.mod file on the same snapshot.
  When the second caller looks the handle up before the first has stored its promise,
  both miss, both create a promise, each awaits its own, and the computation runs twice.
  When the first caller has stored its promise before the second looks it up, both await
  that promise and the computation runs once.
\<close>

theorem ModVuln_two_callers_compute_twice:
  "callers (ModVuln_run ''file:///w/go.mod'' [0, 1, 0, 1, 0, 1] (ModVuln_init 2))
     = [Returned 0, Returned 1]
   \<and> promises (ModVuln_run ''file:///w/go.mod'' [0, 1, 0, 1, 0, 1] (ModVuln_init 2)) = 2
   \<and> computed (ModVuln_run ''file:///w/go.mod'' [0, 1, 0, 1, 0, 1] (ModVuln_init 2)) = [0, 1]
   \<and> callers (ModVuln_run ''file:///w/go.mod'' [0, 0, 1, 1, 0, 1] (ModVuln_init 2))
     = [Returned 0, Returned 0]
   \<and> computed (ModVuln_run ''file:///w/go.mod'' [0, 0, 1, 1, 0, 1] (ModVuln_init 2)) = [0]"
  by (simp add: ModVuln_step_def ModVuln_init_def awaitPromise_def numeral_2_eq_2)

end
